theory Spec2Isabelle
  imports Main "HOL-Library.Multiset" "HOL-Library.Word"
begin

section \<open>Strings\<close>

text \<open>
  A JavaScript string is a sequence of 16-bit code units (UTF-16). \<open>js\<close> writes an
  ASCII text as such a sequence; a character outside ASCII is written by its code
  unit, as in \<open>[0x00A0]\<close> for the no-break space.
\<close>

type_synonym jsstring = "16 word list"

definition js :: "string \<Rightarrow> jsstring" where
  "js s = map of_char s"

text \<open>
  White space as \<open>trim\<close> and \<open>parseInt\<close> read it: the code points \<open>WhiteSpace\<close> and
  \<open>LineTerminator\<close> of ECMAScript, which are tab, line feed, vertical tab, form feed,
  carriage return, the byte order mark U+FEFF, the line and paragraph separators
  U+2028 and U+2029, and the space separators of Unicode (category Zs): U+0020,
  U+00A0, U+1680, U+2000 to U+200A, U+202F, U+205F and U+3000. Each is one code unit.
\<close>

definition isWhiteSpace :: "16 word \<Rightarrow> bool" where
  "isWhiteSpace c =
     (c \<in> set [0x0009, 0x000A, 0x000B, 0x000C, 0x000D, 0x0020, 0x00A0, 0x1680,
                0x2028, 0x2029, 0x202F, 0x205F, 0x3000, 0xFEFF] \<or>
      (0x2000 \<le> c \<and> c \<le> 0x200A))"

definition trim :: "jsstring \<Rightarrow> jsstring" where
  "trim s = rev (dropWhile isWhiteSpace (rev (dropWhile isWhiteSpace s)))"

text \<open>
  \<open>toUpperCase\<close>. On a text of ASCII characters it maps the letters a to z to A to Z
  and leaves every other character as it is. On a text with a character outside
  ASCII it is the case conversion of Unicode, a table of the platform: that part is
  the parameter \<open>unicodeUpper\<close>, and nothing is assumed of it.
\<close>

definition toUpperAscii :: "16 word \<Rightarrow> 16 word" where
  "toUpperAscii c = (if 0x61 \<le> c \<and> c \<le> 0x7A then c - 0x20 else c)"

definition toUpperCase :: "(jsstring \<Rightarrow> jsstring) \<Rightarrow> jsstring \<Rightarrow> jsstring" where
  "toUpperCase unicodeUpper s =
     (if list_all (\<lambda>c. c < 0x80) s then map toUpperAscii s else unicodeUpper s)"

definition isDigit :: "16 word \<Rightarrow> bool" where
  "isDigit c = (0x30 \<le> c \<and> c \<le> 0x39)"

definition digitValue :: "16 word \<Rightarrow> int" where
  "digitValue c = uint c - 0x30"

definition digitsValue :: "jsstring \<Rightarrow> int" where
  "digitsValue ds = foldl (\<lambda>acc d. 10 * acc + digitValue d) 0 ds"

text \<open>
  \<open>parseInt(s, 10)\<close>: leading white space is skipped, one sign is read, then the
  longest run of the decimal digits 0 to 9; whatever follows is ignored. No digit at
  that place gives \<open>NaN\<close>, which is \<open>None\<close> here. The result is an unbounded integer:
  for more than 15 digits JavaScript rounds to a double, which no use below tells
  apart (both are far outside the stage indices). \<open>-0\<close> is \<open>0\<close>.
\<close>

definition parseInt :: "jsstring \<Rightarrow> int option" where
  "parseInt s =
     (let t = dropWhile isWhiteSpace s;
          neg = (case t of c # _ \<Rightarrow> c = 0x2D | [] \<Rightarrow> False);
          u = (case t of c # r \<Rightarrow> (if c = 0x2D \<or> c = 0x2B then r else t) | [] \<Rightarrow> t);
          ds = takeWhile isDigit u
      in if ds = [] then None
         else Some (if neg then - digitsValue ds else digitsValue ds))"

section \<open>Stages and the stage catalog\<close>

datatype GameStage = START | KNOWLEDGE | CONQUER | DRAG_PUZZLE | FINAL_CARD

text \<open>The numeric value of an enum member, which the comparisons of stages use.\<close>

fun stageIndex :: "GameStage \<Rightarrow> int" where
  "stageIndex START = 0"
| "stageIndex KNOWLEDGE = 1"
| "stageIndex CONQUER = 2"
| "stageIndex DRAG_PUZZLE = 3"
| "stageIndex FINAL_CARD = 4"

text \<open>
  The reverse mapping of the enum, \<open>GameStage[n]\<close>: defined for the five indices,
  \<open>undefined\<close> (here \<open>None\<close>) for every other number.
\<close>

definition stageOfIndex :: "int \<Rightarrow> GameStage option" where
  "stageOfIndex n =
     (if n = 0 then Some START
      else if n = 1 then Some KNOWLEDGE
      else if n = 2 then Some CONQUER
      else if n = 3 then Some DRAG_PUZZLE
      else if n = 4 then Some FINAL_CARD
      else None)"

record StageData =
  correctAnswer :: jsstring
  nextStage :: GameStage

text \<open>\<open>STAGES_DATA\<close>; the prompts, which no decision reads, are left out.\<close>

fun STAGES_DATA :: "GameStage \<Rightarrow> StageData" where
  "STAGES_DATA START = \<lparr>correctAnswer = js ''CONHECIMENTO'', nextStage = KNOWLEDGE\<rparr>"
| "STAGES_DATA KNOWLEDGE = \<lparr>correctAnswer = js ''CONQUISTAR'', nextStage = CONQUER\<rparr>"
| "STAGES_DATA CONQUER = \<lparr>correctAnswer = js ''BUSQUE'', nextStage = DRAG_PUZZLE\<rparr>"
| "STAGES_DATA DRAG_PUZZLE = \<lparr>correctAnswer = [], nextStage = FINAL_CARD\<rparr>"
| "STAGES_DATA FINAL_CARD = \<lparr>correctAnswer = [], nextStage = FINAL_CARD\<rparr>"

section \<open>Persistent storage\<close>

text \<open>
  \<open>localStorage\<close>: a map from keys to strings. Every access can throw (storage
  disabled or denied); \<open>available\<close> says whether it does not.
\<close>

record Storage =
  available :: bool
  items :: "jsstring \<rightharpoonup> jsstring"

datatype StorageError = SecurityError

definition getItem :: "Storage \<Rightarrow> jsstring \<Rightarrow> StorageError + jsstring option" where
  "getItem st k = (if available st then Inr (items st k) else Inl SecurityError)"

definition removeItem :: "Storage \<Rightarrow> jsstring \<Rightarrow> StorageError + Storage" where
  "removeItem st k =
     (if available st then Inr (st\<lparr>items := (items st)(k := None)\<rparr>) else Inl SecurityError)"

definition CACHE_KEY :: jsstring where
  "CACHE_KEY = js ''paranormalEnigmaStage''"

definition MUTE_CACHE_KEY :: jsstring where
  "MUTE_CACHE_KEY = js ''paranormalEnigmaMuted''"

text \<open>
  \<open>getInitialStage\<close>. A saved value is used when it is a non-empty string whose
  \<open>parseInt\<close> is a number that indexes the enum; a thrown read is caught and logged.
\<close>

definition getInitialStage :: "Storage \<Rightarrow> GameStage" where
  "getInitialStage st =
     (case getItem st CACHE_KEY of
        Inl err \<Rightarrow> START
      | Inr None \<Rightarrow> START
      | Inr (Some savedStage) \<Rightarrow>
          (if savedStage \<noteq> [] then
             (case parseInt savedStage of
                None \<Rightarrow> START
              | Some parsedStage \<Rightarrow>
                  (case stageOfIndex parsedStage of
                     Some g \<Rightarrow> g
                   | None \<Rightarrow> START))
           else START))"

section \<open>The application state and the answer form\<close>

text \<open>The messages; a letter outside ASCII is written by its code unit.\<close>

definition WRONG_ANSWER_ERROR :: jsstring where
  "WRONG_ANSWER_ERROR =
     js ''As palavras erradas ecoam no vazio. H'' @ [0x00E1] @
     js '' algo que voc'' @ [0x00EA] @ js '' ainda n'' @ [0x00E3] @
     js ''o compreendeu'' @ [0x2026]"

definition REMOVE_ERROR :: jsstring where
  "REMOVE_ERROR =
     js ''N'' @ [0x00E3] @ js ''o foi poss'' @ [0x00ED] @ js ''vel apagar o progresso.''"

definition SEQUENCE_ERROR :: jsstring where
  "SEQUENCE_ERROR =
     js ''A sequ'' @ [0x00EA] @ js ''ncia est'' @ [0x00E1] @
     js '' incorreta. As palavras retornam ao caos.''"

text \<open>
  The state of \<open>App\<close> that \<open>handleSubmit\<close> reads or writes, and the storage.
  \<open>content\<close>, \<open>isMuted\<close> and the audio are not touched by it.
\<close>

record App =
  stage :: GameStage
  inputValue :: jsstring
  error :: "jsstring option"
  isLoading :: bool
  hasInteracted :: bool
  storage :: Storage

text \<open>
  The repository holds two variants of the application. Their \<open>handleSubmit\<close> differ
  in one statement: only \<open>App.tsx\<close> sets \<open>hasInteracted\<close>.
\<close>

datatype SourceVariant = App_tsx | Part_000

text \<open>
  What a handler leaves behind: the component with its updated state, or, after
  \<open>window.location.reload()\<close>, a page that is loaded again over the storage.
\<close>

datatype Outcome = Rendered App | Reloaded Storage

text \<open>The state of a freshly mounted \<open>App\<close>: the initial values of its \<open>useState\<close>.\<close>

definition mountApp :: "Storage \<Rightarrow> App" where
  "mountApp st =
     \<lparr>stage = getInitialStage st, inputValue = [], error = None, isLoading = True,
      hasInteracted = False, storage = st\<rparr>"

definition handleSubmit :: "(jsstring \<Rightarrow> jsstring) \<Rightarrow> SourceVariant \<Rightarrow> App \<Rightarrow> Outcome" where
  "handleSubmit unicodeUpper v s =
     (if isLoading s \<or> stageIndex (stage s) \<ge> stageIndex DRAG_PUZZLE then Rendered s
      else
        let s1 = (if v = App_tsx \<and> \<not> hasInteracted s then s\<lparr>hasInteracted := True\<rparr> else s);
            formattedInput = toUpperCase unicodeUpper (trim (inputValue s1))
        in if formattedInput = js ''0413'' then
             (case removeItem (storage s1) CACHE_KEY of
                Inr st \<Rightarrow> Reloaded st
              | Inl err \<Rightarrow> Rendered (s1\<lparr>error := Some REMOVE_ERROR\<rparr>))
           else
             let currentStageData = STAGES_DATA (stage s1) in
             if formattedInput = correctAnswer currentStageData then
               Rendered (s1\<lparr>error := None, stage := nextStage currentStageData,
                              inputValue := []\<rparr>)
             else
               Rendered (s1\<lparr>error := Some WRONG_ANSWER_ERROR, inputValue := []\<rparr>))"

section \<open>The initial mute state\<close>

text \<open>
  \<open>JSON.parse\<close> is a built-in of the platform; \<open>getInitialMuteState\<close> takes it as a
  parameter: a text either parses to a value or throws a \<open>SyntaxError\<close>.
\<close>

datatype JSValue =
  JSNull | JSBool bool | JSNumber int | JSString jsstring
  | JSArray "JSValue list" | JSObject "(jsstring \<times> JSValue) list"

datatype ParseError = SyntaxError

definition getInitialMuteState :: "(jsstring \<Rightarrow> ParseError + JSValue) \<Rightarrow> Storage \<Rightarrow> JSValue" where
  "getInitialMuteState JSON_parse st =
     (case getItem st MUTE_CACHE_KEY of
        Inl err \<Rightarrow> JSBool False
      | Inr None \<Rightarrow> JSBool False
      | Inr (Some savedMuteState) \<Rightarrow>
          (if savedMuteState \<noteq> [] then
             (case JSON_parse savedMuteState of
                Inr v \<Rightarrow> v
              | Inl err \<Rightarrow> JSBool False)
           else JSBool False))"

text \<open>
  An instance of the parameter for evaluation: \<open>JSON.parse\<close> on the two texts the
  program itself writes (\<open>JSON.stringify\<close> of a boolean). Every other text is
  rejected here, which \<open>JSON.parse\<close> does not do; no theorem below is about such texts.
\<close>

definition parseBoolean :: "jsstring \<Rightarrow> ParseError + JSValue" where
  "parseBoolean s =
     (if s = js ''true'' then Inr (JSBool True)
      else if s = js ''false'' then Inr (JSBool False)
      else Inl SyntaxError)"

section \<open>The word puzzle\<close>

text \<open>
  An element of \<open>droppedWords\<close> is \<open>null\<close> or a word. Reading an array past its end
  gives \<open>undefined\<close>, and writing there extends the array, the gap reading as
  \<open>undefined\<close>.
\<close>

datatype Cell = Null | Undefined | Word jsstring

definition cellAt :: "Cell list \<Rightarrow> nat \<Rightarrow> Cell" where
  "cellAt xs i = (if i < length xs then xs ! i else Undefined)"

definition setCell :: "Cell list \<Rightarrow> nat \<Rightarrow> Cell \<Rightarrow> Cell list" where
  "setCell xs i v =
     (if i < length xs then xs[i := v]
      else xs @ replicate (i - length xs) Undefined @ [v])"

text \<open>Truthiness: \<open>null\<close>, \<open>undefined\<close> and the empty string are falsy.\<close>

fun truthyCell :: "Cell \<Rightarrow> bool" where
  "truthyCell (Word w) = (w \<noteq> [])"
| "truthyCell Null = False"
| "truthyCell Undefined = False"

text \<open>\<open>Array.prototype.join\<close> writes \<open>null\<close> and \<open>undefined\<close> as the empty string.\<close>

fun cellText :: "Cell \<Rightarrow> jsstring" where
  "cellText (Word w) = w"
| "cellText Null = []"
| "cellText Undefined = []"

fun joinSpace :: "jsstring list \<Rightarrow> jsstring" where
  "joinSpace [] = []"
| "joinSpace [x] = x"
| "joinSpace (x # y # ys) = x @ js '' '' @ joinSpace (y # ys)"

definition CORRECT_SEQUENCE :: jsstring where
  "CORRECT_SEQUENCE = js ''BUSQUE CONQUISTAR CONHECIMENTO''"

text \<open>The three words, in the order the source lists them before shuffling.\<close>

definition WORDS :: "jsstring list" where
  "WORDS = [js ''CONHECIMENTO'', js ''CONQUISTAR'', js ''BUSQUE'']"

text \<open>A callback passed to \<open>setTimeout\<close>; a pending timer is its delay and its callback.\<close>

datatype TimerAction = CallOnSolve | ResetPuzzle

text \<open>
  The state of \<open>DragPuzzle\<close>. \<open>INITIAL_WORDS\<close> is fixed when the component mounts:
  \<open>WORDS\<close> shuffled in \<open>App.tsx\<close>, \<open>WORDS\<close> itself in the other variant.
\<close>

record Puzzle =
  INITIAL_WORDS :: "jsstring list"
  draggableWords :: "jsstring list"
  droppedWords :: "Cell list"
  puzzleError :: "jsstring option"
  selectedWord :: "jsstring option"
  timers :: "(nat \<times> TimerAction) list"

definition mountPuzzle :: "jsstring list \<Rightarrow> Puzzle" where
  "mountPuzzle ws =
     \<lparr>INITIAL_WORDS = ws, draggableWords = ws, droppedWords = [Null, Null, Null],
      puzzleError = None, selectedWord = None, timers = []\<rparr>"

definition checkSequence :: "(jsstring \<Rightarrow> jsstring) \<Rightarrow> Cell list \<Rightarrow> Puzzle \<Rightarrow> Puzzle" where
  "checkSequence unicodeUpper sequence p =
     (if list_all (\<lambda>word. word \<noteq> Null) sequence then
        (if toUpperCase unicodeUpper (joinSpace (map cellText sequence)) = CORRECT_SEQUENCE then
           p\<lparr>puzzleError := None, timers := timers p @ [(1000, CallOnSolve)]\<rparr>
         else
           p\<lparr>puzzleError := Some SEQUENCE_ERROR, timers := timers p @ [(2000, ResetPuzzle)]\<rparr>)
      else p)"

text \<open>The callback of the timer that \<open>checkSequence\<close> sets after a wrong sequence.\<close>

definition resetPuzzle :: "Puzzle \<Rightarrow> Puzzle" where
  "resetPuzzle p =
     p\<lparr>draggableWords := INITIAL_WORDS p, droppedWords := [Null, Null, Null],
       puzzleError := None\<rparr>"

definition handleDragStart :: "jsstring \<Rightarrow> Puzzle \<Rightarrow> Puzzle" where
  "handleDragStart word p = p\<lparr>selectedWord := None\<rparr>"

definition handleDrop :: "(jsstring \<Rightarrow> jsstring) \<Rightarrow> jsstring \<Rightarrow> nat \<Rightarrow> Puzzle \<Rightarrow> Puzzle" where
  "handleDrop unicodeUpper word slotIndex p =
     (if word \<notin> set (draggableWords p) \<or> cellAt (droppedWords p) slotIndex \<noteq> Null then p
      else
        let newDroppedWords = setCell (droppedWords p) slotIndex (Word word);
            newDraggableWords = filter (\<lambda>w. w \<noteq> word) (draggableWords p)
        in checkSequence unicodeUpper newDroppedWords
             (p\<lparr>droppedWords := newDroppedWords, draggableWords := newDraggableWords\<rparr>))"

definition handleWordClick :: "jsstring \<Rightarrow> Puzzle \<Rightarrow> Puzzle" where
  "handleWordClick word p =
     p\<lparr>selectedWord := (if selectedWord p = Some word then None else Some word)\<rparr>"

definition handleSlotClick :: "(jsstring \<Rightarrow> jsstring) \<Rightarrow> nat \<Rightarrow> Puzzle \<Rightarrow> Puzzle" where
  "handleSlotClick unicodeUpper slotIndex p =
     (let slot = cellAt (droppedWords p) slotIndex;
          otherwise =
            (case slot of
               Word wordToReturn \<Rightarrow>
                 (if wordToReturn \<noteq> [] then
                    p\<lparr>droppedWords := setCell (droppedWords p) slotIndex Null,
                      draggableWords := draggableWords p @ [wordToReturn],
                      selectedWord := None\<rparr>
                  else p)
             | Null \<Rightarrow> p
             | Undefined \<Rightarrow> p)
      in case selectedWord p of
           Some selected \<Rightarrow>
             (if selected \<noteq> [] \<and> \<not> truthyCell slot then
                let newDroppedWords = setCell (droppedWords p) slotIndex (Word selected);
                    newDraggableWords = filter (\<lambda>w. w \<noteq> selected) (draggableWords p)
                in checkSequence unicodeUpper newDroppedWords
                     (p\<lparr>droppedWords := newDroppedWords, draggableWords := newDraggableWords,
                       selectedWord := None\<rparr>)
              else otherwise)
         | None \<Rightarrow> otherwise)"

section \<open>The words in play\<close>

text \<open>
  The words that sit in slots, in slot order; the words in the pool and in the slots
  together, as a multiset; and the invariant of the puzzle: three words in play, each
  word of the vocabulary once.
\<close>

definition placedWords :: "Cell list \<Rightarrow> jsstring list" where
  "placedWords cs = concat (map (\<lambda>c. case c of Word w \<Rightarrow> [w] | Null \<Rightarrow> [] | Undefined \<Rightarrow> []) cs)"

definition wordsInPlay :: "Puzzle \<Rightarrow> jsstring multiset" where
  "wordsInPlay p = mset (draggableWords p) + mset (placedWords (droppedWords p))"

definition puzzleInvariant :: "Puzzle \<Rightarrow> bool" where
  "puzzleInvariant p =
     (length (draggableWords p) + length (placedWords (droppedWords p)) = 3 \<and>
      wordsInPlay p = mset WORDS)"

text \<open>
  What the handlers keep true beyond the invariant: the initial words are the
  vocabulary, there are three slots, none of them \<open>undefined\<close>, and a selected word is a
  word of the pool.
\<close>

definition consistent :: "Puzzle \<Rightarrow> bool" where
  "consistent p =
     (mset (INITIAL_WORDS p) = mset WORDS \<and> length (droppedWords p) = 3 \<and>
      Undefined \<notin> set (droppedWords p) \<and> wordsInPlay p = mset WORDS \<and>
      (case selectedWord p of None \<Rightarrow> True | Some w \<Rightarrow> w \<in> set (draggableWords p)))"

text \<open>
  The states the component reaches when every drop happens with no word selected, as
  after a drag that started on a word of the pool (\<open>handleDragStart\<close> clears the
  selection): mounting, a click on a word of the pool, the start of a drag of a word
  of the pool, a drop of any text on any slot, a click on one of the slots, and the
  callback of a pending reset timer.
\<close>

inductive reachable :: "(jsstring \<Rightarrow> jsstring) \<Rightarrow> jsstring list \<Rightarrow> Puzzle \<Rightarrow> bool"
  for U :: "jsstring \<Rightarrow> jsstring" and ws :: "jsstring list" where
  mounted: "reachable U ws (mountPuzzle ws)"
| wordClick: "reachable U ws p \<Longrightarrow> w \<in> set (draggableWords p) \<Longrightarrow>
    reachable U ws (handleWordClick w p)"
| dragStart: "reachable U ws p \<Longrightarrow> w \<in> set (draggableWords p) \<Longrightarrow>
    reachable U ws (handleDragStart w p)"
| drop: "reachable U ws p \<Longrightarrow> selectedWord p = None \<Longrightarrow> reachable U ws (handleDrop U w i p)"
| slotClick: "reachable U ws p \<Longrightarrow> i < length (droppedWords p) \<Longrightarrow>
    reachable U ws (handleSlotClick U i p)"
| reset: "reachable U ws p \<Longrightarrow> (2000, ResetPuzzle) \<in> set (timers p) \<Longrightarrow>
    reachable U ws (resetPuzzle p)"

section \<open>States to evaluate the theorems at\<close>

text \<open>
  The application at START after a wrong answer, at a given stage with a storage that
  works or throws, and at the puzzle stage.
\<close>

definition readyAtStart :: "jsstring \<Rightarrow> App" where
  "readyAtStart input =
     \<lparr>stage = START, inputValue = input, error = Some WRONG_ANSWER_ERROR, isLoading = False,
      hasInteracted = True,
      storage = \<lparr>available = True, items = [CACHE_KEY \<mapsto> js ''0'']\<rparr>\<rparr>"

definition readyAt :: "GameStage \<Rightarrow> jsstring \<Rightarrow> bool \<Rightarrow> App" where
  "readyAt g input ok =
     \<lparr>stage = g, inputValue = input, error = None, isLoading = False,
      hasInteracted = True,
      storage = \<lparr>available = ok, items = [CACHE_KEY \<mapsto> js ''2'']\<rparr>\<rparr>"

definition atPuzzle :: "jsstring \<Rightarrow> App" where
  "atPuzzle input =
     \<lparr>stage = DRAG_PUZZLE, inputValue = input, error = None, isLoading = False,
      hasInteracted = True,
      storage = \<lparr>available = True, items = [CACHE_KEY \<mapsto> js ''3'']\<rparr>\<rparr>"

text \<open>
  An instance of the parameter of \<open>toUpperCase\<close> for evaluation: the case conversion
  on texts whose only character outside ASCII is the long s (U+017F), which Unicode
  upper-cases to S. No theorem below is about other texts under it.
\<close>

definition upperLongS :: "jsstring \<Rightarrow> jsstring" where
  "upperLongS s = map (\<lambda>c. if c = 0x017F then 0x53 else toUpperAscii c) s"

text \<open>
  The puzzle as mounted with a given selection; with BUSQUE in the first slot; and
  after a click on BUSQUE, a drop of BUSQUE on the first slot and a click on the second
  slot.
\<close>

definition selectedAt :: "jsstring option \<Rightarrow> Puzzle" where
  "selectedAt sel = (mountPuzzle WORDS)\<lparr>selectedWord := sel\<rparr>"

definition firstPlaced :: "jsstring option \<Rightarrow> Puzzle" where
  "firstPlaced sel =
     \<lparr>INITIAL_WORDS = WORDS, draggableWords = [js ''CONHECIMENTO'', js ''CONQUISTAR''],
      droppedWords = [Word (js ''BUSQUE''), Null, Null], puzzleError = None,
      selectedWord = sel, timers = []\<rparr>"

definition staleSelection :: "(jsstring \<Rightarrow> jsstring) \<Rightarrow> jsstring list \<Rightarrow> Puzzle" where
  "staleSelection unicodeUpper ws =
     handleSlotClick unicodeUpper 1
       (handleDrop unicodeUpper (js ''BUSQUE'') 0
         (handleWordClick (js ''BUSQUE'') (mountPuzzle ws)))"

text \<open>
  The slots in the order that solves the puzzle, the slots in another order, and the
  puzzle with all three words placed (its initial words in a shuffled order).
\<close>

definition solved :: "Cell list" where
  "solved = [Word (js ''BUSQUE''), Word (js ''CONQUISTAR''), Word (js ''CONHECIMENTO'')]"

definition allPlaced :: "Cell list \<Rightarrow> Puzzle" where
  "allPlaced cs =
     \<lparr>INITIAL_WORDS = [js ''CONQUISTAR'', js ''BUSQUE'', js ''CONHECIMENTO''],
      draggableWords = [], droppedWords = cs, puzzleError = None, selectedWord = None,
      timers = []\<rparr>"

definition misplaced :: "Cell list" where
  "misplaced = [Word (js ''BUSQUE''), Word (js ''CONHECIMENTO''), Word (js ''CONQUISTAR'')]"

section \<open>Loading the initial stage\<close>

lemma parseInt_Nil: "parseInt [] = None"
  by (simp add: parseInt_def)

lemma stageOfIndex_stageIndex: "stageOfIndex n = Some g \<Longrightarrow> stageIndex g = n"
  by (auto simp: stageOfIndex_def split: if_splits)

lemma stageOfIndex_in_range: "0 \<le> n \<Longrightarrow> n \<le> 4 \<Longrightarrow> \<exists>g. stageOfIndex n = Some g"
  by (simp add: stageOfIndex_def)

lemmas parse_simps =
  js_def parseInt_def isWhiteSpace_def isDigit_def digitValue_def digitsValue_def
  stageOfIndex_def

text \<open>
  C7. Loading the initial stage always returns a stage and falls back to START:
  the saved value "2" gives CONQUER; "99" and "abc" give START; a missing key gives
  START; a storage read that throws gives START.
\<close>

theorem getInitialStage_fails_open:
  "(available st \<and> items st CACHE_KEY = Some (js ''2'') \<longrightarrow> getInitialStage st = CONQUER) \<and>
   (available st \<and> items st CACHE_KEY = Some (js ''99'') \<longrightarrow> getInitialStage st = START) \<and>
   (available st \<and> items st CACHE_KEY = Some (js ''abc'') \<longrightarrow> getInitialStage st = START) \<and>
   (items st CACHE_KEY = None \<longrightarrow> getInitialStage st = START) \<and>
   (\<not> available st \<longrightarrow> getInitialStage st = START)"
  by (simp add: getInitialStage_def getItem_def parse_simps)

theorem getInitialStage_fails_open_witness:
  "getInitialStage \<lparr>available = True, items = [CACHE_KEY \<mapsto> js ''2'']\<rparr> = CONQUER \<and>
   getInitialStage \<lparr>available = True, items = [CACHE_KEY \<mapsto> js ''99'']\<rparr> = START \<and>
   getInitialStage \<lparr>available = True, items = [CACHE_KEY \<mapsto> js ''abc'']\<rparr> = START \<and>
   getInitialStage \<lparr>available = True, items = Map.empty\<rparr> = START \<and>
   getInitialStage \<lparr>available = False, items = [CACHE_KEY \<mapsto> js ''2'']\<rparr> = START"
  using getInitialStage_fails_open [of "\<lparr>available = True, items = [CACHE_KEY \<mapsto> js ''2'']\<rparr>"]
    getInitialStage_fails_open [of "\<lparr>available = True, items = [CACHE_KEY \<mapsto> js ''99'']\<rparr>"]
    getInitialStage_fails_open [of "\<lparr>available = True, items = [CACHE_KEY \<mapsto> js ''abc'']\<rparr>"]
    getInitialStage_fails_open [of "\<lparr>available = True, items = Map.empty\<rparr>"]
    getInitialStage_fails_open [of "\<lparr>available = False, items = [CACHE_KEY \<mapsto> js ''2'']\<rparr>"]
  by simp

text \<open>
  The fallback in general: the initial stage is START unless the storage can be read
  and holds a string whose \<open>parseInt\<close> is one of 1, 2, 3 and 4.
\<close>

lemma getInitialStage_START_unless:
  "getInitialStage st \<noteq> START \<Longrightarrow>
   available st \<and>
   (\<exists>s n. items st CACHE_KEY = Some s \<and> parseInt s = Some n \<and> 1 \<le> n \<and> n \<le> 4)"
  by (auto simp: getInitialStage_def getItem_def stageOfIndex_def
      split: if_splits option.splits)

text \<open>
  C10. A saved string need not be a pure decimal index: whenever \<open>parseInt\<close> of the
  saved string is a number n with 0 \<le> n \<le> 4, the initial stage is the stage with
  index n and not the START fallback. \<open>parseInt\<close> skips leading white space (the
  no-break space and the byte order mark among it), reads the leading digits and
  ignores what follows them, so "2abc" gives CONQUER and "3.9" gives DRAG_PUZZLE.
\<close>

theorem getInitialStage_numeric_prefix:
  "(available st \<and> items st CACHE_KEY = Some s \<and> parseInt s = Some n \<and> 0 \<le> n \<and> n \<le> 4
      \<longrightarrow> stageOfIndex n = Some (getInitialStage st) \<and> stageIndex (getInitialStage st) = n) \<and>
   parseInt (js ''2abc'') = Some 2 \<and> parseInt (js ''3.9'') = Some 3 \<and>
   parseInt ([0x00A0] @ js ''2'') = Some 2 \<and> parseInt ([0xFEFF] @ js ''3'') = Some 3 \<and>
   parseInt (js '' +4e1'') = Some 4 \<and>
   (available st \<and> items st CACHE_KEY = Some (js ''2abc'') \<longrightarrow> getInitialStage st = CONQUER) \<and>
   (available st \<and> items st CACHE_KEY = Some (js ''3.9'') \<longrightarrow>
      getInitialStage st = DRAG_PUZZLE) \<and>
   (available st \<and> items st CACHE_KEY = Some ([0x00A0] @ js ''2'') \<longrightarrow>
      getInitialStage st = CONQUER) \<and>
   (available st \<and> items st CACHE_KEY = Some ([0xFEFF] @ js ''3'') \<longrightarrow>
      getInitialStage st = DRAG_PUZZLE)"
proof -
  have general: "stageOfIndex n = Some (getInitialStage st) \<and> stageIndex (getInitialStage st) = n"
    if a: "available st" and i: "items st CACHE_KEY = Some s" and p: "parseInt s = Some n"
      and lo: "0 \<le> n" and hi: "n \<le> 4"
  proof -
    from p have ne: "s \<noteq> []"
      using parseInt_Nil by auto
    from lo hi obtain g where g: "stageOfIndex n = Some g"
      using stageOfIndex_in_range by blast
    from a i p ne g have "getInitialStage st = g"
      by (simp add: getInitialStage_def getItem_def)
    with g show ?thesis
      by (simp add: stageOfIndex_stageIndex)
  qed
  have ex: "parseInt (js ''2abc'') = Some 2" "parseInt (js ''3.9'') = Some 3"
    "parseInt ([0x00A0] @ js ''2'') = Some 2" "parseInt ([0xFEFF] @ js ''3'') = Some 3"
    "parseInt (js '' +4e1'') = Some 4"
    by (simp_all add: parse_simps)
  have st1: "getInitialStage st = CONQUER"
    if "available st" "items st CACHE_KEY = Some (js ''2abc'')"
    using that by (simp add: getInitialStage_def getItem_def parse_simps)
  have st2: "getInitialStage st = DRAG_PUZZLE"
    if "available st" "items st CACHE_KEY = Some (js ''3.9'')"
    using that by (simp add: getInitialStage_def getItem_def parse_simps)
  have st3: "getInitialStage st = CONQUER"
    if "available st" "items st CACHE_KEY = Some ([0x00A0] @ js ''2'')"
    using that by (simp add: getInitialStage_def getItem_def parse_simps)
  have st4: "getInitialStage st = DRAG_PUZZLE"
    if "available st" "items st CACHE_KEY = Some ([0xFEFF] @ js ''3'')"
    using that by (simp add: getInitialStage_def getItem_def parse_simps)
  from general ex st1 st2 st3 st4 show ?thesis
    by blast
qed

theorem getInitialStage_numeric_prefix_witness:
  "parseInt (js ''2abc'') = Some 2 \<and>
   getInitialStage \<lparr>available = True, items = [CACHE_KEY \<mapsto> js ''2abc'']\<rparr> = CONQUER \<and>
   stageIndex (getInitialStage \<lparr>available = True, items = [CACHE_KEY \<mapsto> js ''2abc'']\<rparr>) = 2 \<and>
   getInitialStage \<lparr>available = True, items = [CACHE_KEY \<mapsto> js ''3.9'']\<rparr> = DRAG_PUZZLE \<and>
   getInitialStage \<lparr>available = True, items = [CACHE_KEY \<mapsto> [0x00A0] @ js ''2'']\<rparr> = CONQUER"
  using getInitialStage_numeric_prefix
      [of "\<lparr>available = True, items = [CACHE_KEY \<mapsto> js ''2abc'']\<rparr>" "js ''2abc''" 2]
    getInitialStage_numeric_prefix
      [of "\<lparr>available = True, items = [CACHE_KEY \<mapsto> js ''3.9'']\<rparr>" "js ''3.9''" 3]
    getInitialStage_numeric_prefix
      [of "\<lparr>available = True, items = [CACHE_KEY \<mapsto> [0x00A0] @ js ''2'']\<rparr>"
        "[0x00A0] @ js ''2''" 2]
  by simp

section \<open>Submitting an answer\<close>

lemmas string_simps = js_def toUpperCase_def trim_def toUpperAscii_def isWhiteSpace_def

lemma before_puzzle:
  "stageIndex g < stageIndex DRAG_PUZZLE \<longleftrightarrow> g = START \<or> g = KNOWLEDGE \<or> g = CONQUER"
  by (cases g) simp_all

lemma normalise_examples:
  "toUpperCase U (trim (js ''conhecimento'')) = js ''CONHECIMENTO''"
  "toUpperCase U (trim (js ''xyz'')) = js ''XYZ''"
  by (simp_all add: string_simps)

text \<open>
  C1. The form delivers a submission only while its input and its button are enabled,
  that is while \<open>isLoading\<close> is false (both carry \<open>disabled={isLoading}\<close>). For every
  such state at a stage before DRAG_PUZZLE, every variant, every case conversion of
  the platform and every input whose trimmed, uppercased form is not "0413": the
  submission moves the stage to the next stage of the current stage's entry and
  clears the error exactly when the normalised input equals the entry's correct
  answer; otherwise the error message is set and the stage is unchanged. Either way
  the input field is cleared and the storage is not touched. In particular
  "conhecimento" at START moves to KNOWLEDGE and clears the error, and "xyz" at START
  stays at START with the error set and the input cleared.
\<close>

theorem handleSubmit_answer:
  "(\<not> isLoading s \<and> stageIndex (stage s) < stageIndex DRAG_PUZZLE \<and>
    toUpperCase U (trim (inputValue s)) \<noteq> js ''0413'' \<longrightarrow>
      (\<exists>s'. handleSubmit U v s = Rendered s' \<and>
         (if toUpperCase U (trim (inputValue s)) = correctAnswer (STAGES_DATA (stage s))
          then stage s' = nextStage (STAGES_DATA (stage s)) \<and> error s' = None
          else stage s' = stage s \<and> error s' = Some WRONG_ANSWER_ERROR) \<and>
         ((stage s' = nextStage (STAGES_DATA (stage s)) \<and> error s' = None) =
          (toUpperCase U (trim (inputValue s)) = correctAnswer (STAGES_DATA (stage s)))) \<and>
         inputValue s' = [] \<and> storage s' = storage s)) \<and>
   (\<not> isLoading s \<and> stage s = START \<and> inputValue s = js ''conhecimento'' \<longrightarrow>
      (\<exists>s'. handleSubmit U v s = Rendered s' \<and> stage s' = KNOWLEDGE \<and> error s' = None)) \<and>
   (\<not> isLoading s \<and> stage s = START \<and> inputValue s = js ''xyz'' \<longrightarrow>
      (\<exists>s'. handleSubmit U v s = Rendered s' \<and> stage s' = START \<and>
         error s' = Some WRONG_ANSWER_ERROR \<and> inputValue s' = []))"
proof -
  have general: "\<exists>s'. handleSubmit U v s = Rendered s' \<and>
         (if toUpperCase U (trim (inputValue s)) = correctAnswer (STAGES_DATA (stage s))
          then stage s' = nextStage (STAGES_DATA (stage s)) \<and> error s' = None
          else stage s' = stage s \<and> error s' = Some WRONG_ANSWER_ERROR) \<and>
         ((stage s' = nextStage (STAGES_DATA (stage s)) \<and> error s' = None) =
          (toUpperCase U (trim (inputValue s)) = correctAnswer (STAGES_DATA (stage s)))) \<and>
         inputValue s' = [] \<and> storage s' = storage s"
    if "\<not> isLoading s" "stageIndex (stage s) < stageIndex DRAG_PUZZLE"
      "toUpperCase U (trim (inputValue s)) \<noteq> js ''0413''"
    using that by (auto simp: handleSubmit_def Let_def before_puzzle)
  have right: "\<exists>s'. handleSubmit U v s = Rendered s' \<and> stage s' = KNOWLEDGE \<and> error s' = None"
    if "\<not> isLoading s" "stage s = START" "inputValue s = js ''conhecimento''"
    using that normalise_examples(1) [of U]
    by (auto simp: handleSubmit_def Let_def js_def)
  have wrong: "\<exists>s'. handleSubmit U v s = Rendered s' \<and> stage s' = START \<and>
      error s' = Some WRONG_ANSWER_ERROR \<and> inputValue s' = []"
    if "\<not> isLoading s" "stage s = START" "inputValue s = js ''xyz''"
    using that normalise_examples(2) [of U]
    by (auto simp: handleSubmit_def Let_def js_def)
  from general right wrong show ?thesis
    by blast
qed

theorem handleSubmit_answer_witness:
  "(\<exists>s'. handleSubmit upperLongS App_tsx (readyAtStart (js ''conhecimento'')) = Rendered s' \<and>
         stage s' = KNOWLEDGE \<and> error s' = None \<and> inputValue s' = []) \<and>
   (\<exists>s'. handleSubmit upperLongS Part_000
            (readyAtStart ([0x00A0] @ js ''conhecimento'' @ [0x00A0])) = Rendered s' \<and>
         stage s' = KNOWLEDGE \<and> error s' = None \<and> inputValue s' = []) \<and>
   (\<exists>s'. handleSubmit upperLongS App_tsx
            (readyAt CONQUER (js ''bu'' @ [0x017F] @ js ''que'') True) = Rendered s' \<and>
         stage s' = DRAG_PUZZLE \<and> error s' = None) \<and>
   (\<exists>s'. handleSubmit upperLongS App_tsx (readyAtStart (js ''xyz'')) = Rendered s' \<and>
         stage s' = START \<and> error s' = Some WRONG_ANSWER_ERROR \<and> inputValue s' = [])"
  using handleSubmit_answer [of "readyAtStart (js ''conhecimento'')" upperLongS App_tsx]
    handleSubmit_answer
      [of "readyAtStart ([0x00A0] @ js ''conhecimento'' @ [0x00A0])" upperLongS Part_000]
    handleSubmit_answer
      [of "readyAt CONQUER (js ''bu'' @ [0x017F] @ js ''que'') True" upperLongS App_tsx]
    handleSubmit_answer [of "readyAtStart (js ''xyz'')" upperLongS App_tsx]
  by (auto simp add: readyAtStart_def readyAt_def upperLongS_def string_simps)

text \<open>
  C2, as the claim states it, fails at DRAG_PUZZLE, which it lists among the stages
  the override code works from: the stage guard of \<open>handleSubmit\<close> comes before the
  comparison with "0413", so at DRAG_PUZZLE the code submits nothing; the stage and
  the saved stage stay as they are.
\<close>

theorem handleSubmit_override_counterexample:
  "stage (atPuzzle (js ''0413'')) = DRAG_PUZZLE \<and>
   toUpperCase upperLongS (trim (inputValue (atPuzzle (js ''0413'')))) = js ''0413'' \<and>
   handleSubmit upperLongS App_tsx (atPuzzle (js ''0413'')) = Rendered (atPuzzle (js ''0413'')) \<and>
   handleSubmit upperLongS Part_000 (atPuzzle (js ''0413'')) = Rendered (atPuzzle (js ''0413'')) \<and>
   items (storage (atPuzzle (js ''0413''))) CACHE_KEY = Some (js ''3'')"
  by (simp add: atPuzzle_def string_simps handleSubmit_def)

text \<open>
  C2, amended. At START, KNOWLEDGE and CONQUER, when the view is not loading, an input
  whose trimmed, uppercased form is "0413" is handled before any comparison with the
  stage's answer: the saved stage is removed from the storage (the other keys are
  kept) and the page is reloaded, and the application mounted over that storage
  starts at START with no error. If removing the key throws, the error message is set
  and stage and storage stay as they are. While loading, and at DRAG_PUZZLE and
  FINAL_CARD, the submission changes nothing. This holds for every variant and every
  case conversion of the platform.
\<close>

theorem handleSubmit_override:
  "(\<not> isLoading s \<and> stageIndex (stage s) < stageIndex DRAG_PUZZLE \<and>
    toUpperCase U (trim (inputValue s)) = js ''0413'' \<and> available (storage s) \<longrightarrow>
      (\<exists>st. handleSubmit U v s = Reloaded st \<and> available st \<and> items st CACHE_KEY = None \<and>
         (\<forall>k. k \<noteq> CACHE_KEY \<longrightarrow> items st k = items (storage s) k) \<and>
         stage (mountApp st) = START \<and> error (mountApp st) = None)) \<and>
   (\<not> isLoading s \<and> stageIndex (stage s) < stageIndex DRAG_PUZZLE \<and>
    toUpperCase U (trim (inputValue s)) = js ''0413'' \<and> \<not> available (storage s) \<longrightarrow>
      (\<exists>s'. handleSubmit U v s = Rendered s' \<and> stage s' = stage s \<and>
         error s' = Some REMOVE_ERROR \<and> storage s' = storage s)) \<and>
   (isLoading s \<or> stage s = DRAG_PUZZLE \<or> stage s = FINAL_CARD \<longrightarrow>
      handleSubmit U v s = Rendered s)"
  by (auto simp: handleSubmit_def Let_def before_puzzle removeItem_def mountApp_def
      getInitialStage_def getItem_def)

theorem handleSubmit_override_witness:
  "(\<exists>st. handleSubmit upperLongS App_tsx (readyAt CONQUER (js '' 0413 '') True) = Reloaded st \<and>
       items st CACHE_KEY = None \<and> stage (mountApp st) = START) \<and>
   (\<exists>st. handleSubmit upperLongS Part_000 (readyAt KNOWLEDGE ([0x00A0] @ js ''0413'') True) =
         Reloaded st \<and>
       items st CACHE_KEY = None \<and> stage (mountApp st) = START) \<and>
   (\<exists>s'. handleSubmit upperLongS App_tsx (readyAt CONQUER (js '' 0413 '') False) = Rendered s' \<and>
       stage s' = CONQUER \<and> error s' = Some REMOVE_ERROR) \<and>
   handleSubmit upperLongS App_tsx (atPuzzle (js ''0413'')) = Rendered (atPuzzle (js ''0413''))"
  using handleSubmit_override [of "readyAt CONQUER (js '' 0413 '') True" upperLongS App_tsx]
    handleSubmit_override
      [of "readyAt KNOWLEDGE ([0x00A0] @ js ''0413'') True" upperLongS Part_000]
    handleSubmit_override [of "readyAt CONQUER (js '' 0413 '') False" upperLongS App_tsx]
    handleSubmit_override [of "atPuzzle (js ''0413'')" upperLongS App_tsx]
  by (auto simp add: readyAt_def atPuzzle_def string_simps)

text \<open>
  C3. At DRAG_PUZZLE and at FINAL_CARD, submitting any input I is a no-op: the
  handler leaves the whole state as it is (stage, error message and storage among
  it) and does not reload the page.
\<close>

theorem handleSubmit_noop_from_puzzle:
  "stage s = DRAG_PUZZLE \<or> stage s = FINAL_CARD \<Longrightarrow>
   handleSubmit U v (s\<lparr>inputValue := I\<rparr>) = Rendered (s\<lparr>inputValue := I\<rparr>)"
  by (auto simp: handleSubmit_def)

theorem handleSubmit_noop_from_puzzle_witness:
  "handleSubmit upperLongS App_tsx (atPuzzle (js ''0413'')) = Rendered (atPuzzle (js ''0413'')) \<and>
   handleSubmit upperLongS Part_000 (atPuzzle (js ''busque'')) = Rendered (atPuzzle (js ''busque''))"
  using handleSubmit_noop_from_puzzle [of "atPuzzle (js ''0413'')" upperLongS App_tsx "js ''0413''"]
    handleSubmit_noop_from_puzzle
      [of "atPuzzle (js ''busque'')" upperLongS Part_000 "js ''busque''"]
  by (simp add: atPuzzle_def)

section \<open>Loading the initial mute state\<close>

text \<open>
  C9. With no saved mute value the initial mute state is false; with the saved text
  "true" (which \<open>JSON.parse\<close> reads as the boolean true) it is true; a storage read
  that throws, or a saved text that \<open>JSON.parse\<close> rejects, gives false.
\<close>

theorem getInitialMuteState_defaults:
  "(items st MUTE_CACHE_KEY = None \<longrightarrow> getInitialMuteState JSON_parse st = JSBool False) \<and>
   (available st \<and> items st MUTE_CACHE_KEY = Some (js ''true'') \<and>
    JSON_parse (js ''true'') = Inr (JSBool True) \<longrightarrow>
      getInitialMuteState JSON_parse st = JSBool True) \<and>
   (\<not> available st \<longrightarrow> getInitialMuteState JSON_parse st = JSBool False) \<and>
   (available st \<and> items st MUTE_CACHE_KEY = Some saved \<and> JSON_parse saved = Inl SyntaxError \<longrightarrow>
      getInitialMuteState JSON_parse st = JSBool False)"
  by (auto simp: getInitialMuteState_def getItem_def js_def)

theorem getInitialMuteState_defaults_witness:
  "getInitialMuteState parseBoolean \<lparr>available = True, items = Map.empty\<rparr> = JSBool False \<and>
   getInitialMuteState parseBoolean
       \<lparr>available = True, items = [MUTE_CACHE_KEY \<mapsto> js ''true'']\<rparr> = JSBool True \<and>
   getInitialMuteState parseBoolean
       \<lparr>available = False, items = [MUTE_CACHE_KEY \<mapsto> js ''true'']\<rparr> = JSBool False \<and>
   getInitialMuteState parseBoolean
       \<lparr>available = True, items = [MUTE_CACHE_KEY \<mapsto> js ''tru'']\<rparr> = JSBool False"
  using getInitialMuteState_defaults
      [of "\<lparr>available = True, items = Map.empty\<rparr>" parseBoolean]
    getInitialMuteState_defaults
      [of "\<lparr>available = True, items = [MUTE_CACHE_KEY \<mapsto> js ''true'']\<rparr>" parseBoolean]
    getInitialMuteState_defaults
      [of "\<lparr>available = False, items = [MUTE_CACHE_KEY \<mapsto> js ''true'']\<rparr>" parseBoolean]
    getInitialMuteState_defaults
      [of "\<lparr>available = True, items = [MUTE_CACHE_KEY \<mapsto> js ''tru'']\<rparr>" parseBoolean
        "js ''tru''"]
  by (simp add: parseBoolean_def js_def)

section \<open>The completion check\<close>

lemma list3: "length xs = 3 \<Longrightarrow> \<exists>x y z. xs = [x, y, z]"
  by (cases xs; simp; cases "tl xs"; simp; cases "tl (tl xs)"; auto)

lemma perm3:
  assumes "mset xs = mset [a, b, c]"
  shows "xs = [a, b, c] \<or> xs = [a, c, b] \<or> xs = [b, a, c] \<or> xs = [b, c, a] \<or>
         xs = [c, a, b] \<or> xs = [c, b, a]"
proof -
  from assms have "length xs = 3"
    using mset_eq_length by fastforce
  then obtain x y z where xs: "xs = [x, y, z]"
    using list3 by blast
  with assms have "{#x, y, z#} = {#a, b, c#}"
    by simp
  then show ?thesis
    unfolding xs by (auto simp: add_eq_conv_diff split: if_splits)
qed

lemma wrong3:
  assumes "mset xs = mset [a, b, c]" and "xs \<noteq> [c, b, a]"
  shows "xs = [a, b, c] \<or> xs = [a, c, b] \<or> xs = [b, a, c] \<or> xs = [b, c, a] \<or> xs = [c, a, b]"
  using perm3 [OF assms(1)] assms(2) by blast

lemma wrong_arrangement:
  assumes "mset sequence = mset (map Word WORDS)" and "sequence \<noteq> solved"
  shows "list_all (\<lambda>word. word \<noteq> Null) sequence \<and>
         toUpperCase U (joinSpace (map cellText sequence)) \<noteq> CORRECT_SEQUENCE"
proof -
  from assms(1)
  have m: "mset sequence =
      mset [Word (js ''CONHECIMENTO''), Word (js ''CONQUISTAR''), Word (js ''BUSQUE'')]"
    unfolding WORDS_def list.map .
  from assms(2)
  have n: "sequence \<noteq>
      [Word (js ''BUSQUE''), Word (js ''CONQUISTAR''), Word (js ''CONHECIMENTO'')]"
    unfolding solved_def .
  from wrong3 [OF m n] show ?thesis
    by (elim disjE) (simp_all add: js_def toUpperCase_def toUpperAscii_def CORRECT_SEQUENCE_def)
qed

lemma list_all_not_Null: "list_all (\<lambda>word. word \<noteq> Null) sequence \<longleftrightarrow> Null \<notin> set sequence"
  by (induction sequence) auto

lemma misplaced_arrangement: "mset misplaced = mset (map Word WORDS) \<and> misplaced \<noteq> solved"
  by (simp add: misplaced_def solved_def WORDS_def js_def)

text \<open>
  C5. The completion check does nothing while a slot is still \<open>null\<close>. With no slot
  \<open>null\<close>, when the slot contents joined with single spaces and uppercased equal
  "BUSQUE CONQUISTAR CONHECIMENTO", as for the slots BUSQUE, CONQUISTAR, CONHECIMENTO in
  that order, the error is cleared and the solve callback is scheduled after its fixed
  delay of 1000 ms. For every other arrangement of the three words in the three slots,
  the error message is set and a reset is scheduled after its fixed delay of 2000 ms;
  the reset puts the pool back to the initial words in their initial order, empties
  the three slots and clears the error.
\<close>

theorem checkSequence_completion:
  "(Null \<in> set sequence \<longrightarrow> checkSequence U sequence p = p) \<and>
   (Null \<notin> set sequence \<and>
    toUpperCase U (joinSpace (map cellText sequence)) = CORRECT_SEQUENCE \<longrightarrow>
      checkSequence U sequence p =
        p\<lparr>puzzleError := None, timers := timers p @ [(1000, CallOnSolve)]\<rparr>) \<and>
   checkSequence U solved p =
     p\<lparr>puzzleError := None, timers := timers p @ [(1000, CallOnSolve)]\<rparr> \<and>
   (mset sequence = mset (map Word WORDS) \<and> sequence \<noteq> solved \<longrightarrow>
      checkSequence U sequence p =
        p\<lparr>puzzleError := Some SEQUENCE_ERROR, timers := timers p @ [(2000, ResetPuzzle)]\<rparr> \<and>
      draggableWords (resetPuzzle (checkSequence U sequence p)) = INITIAL_WORDS p \<and>
      droppedWords (resetPuzzle (checkSequence U sequence p)) = [Null, Null, Null] \<and>
      puzzleError (resetPuzzle (checkSequence U sequence p)) = None)"
proof -
  have a: "checkSequence U sequence p = p" if "Null \<in> set sequence"
    using that by (simp add: checkSequence_def list_all_not_Null)
  have b: "checkSequence U sequence p =
      p\<lparr>puzzleError := None, timers := timers p @ [(1000, CallOnSolve)]\<rparr>"
    if "Null \<notin> set sequence"
      and "toUpperCase U (joinSpace (map cellText sequence)) = CORRECT_SEQUENCE"
    using that by (simp add: checkSequence_def list_all_not_Null)
  have "toUpperCase U (joinSpace (map cellText solved)) = CORRECT_SEQUENCE"
    by (simp add: solved_def js_def toUpperCase_def toUpperAscii_def CORRECT_SEQUENCE_def)
  moreover have "Null \<notin> set solved"
    by (simp add: solved_def)
  ultimately have c: "checkSequence U solved p =
      p\<lparr>puzzleError := None, timers := timers p @ [(1000, CallOnSolve)]\<rparr>"
    by (simp add: checkSequence_def list_all_not_Null)
  have d: "checkSequence U sequence p =
      p\<lparr>puzzleError := Some SEQUENCE_ERROR, timers := timers p @ [(2000, ResetPuzzle)]\<rparr>"
    if "mset sequence = mset (map Word WORDS)" and "sequence \<noteq> solved"
    using wrong_arrangement [OF that, of U] by (simp add: checkSequence_def)
  have g: "checkSequence U sequence p =
        p\<lparr>puzzleError := Some SEQUENCE_ERROR, timers := timers p @ [(2000, ResetPuzzle)]\<rparr> \<and>
      draggableWords (resetPuzzle (checkSequence U sequence p)) = INITIAL_WORDS p \<and>
      droppedWords (resetPuzzle (checkSequence U sequence p)) = [Null, Null, Null] \<and>
      puzzleError (resetPuzzle (checkSequence U sequence p)) = None"
    if "mset sequence = mset (map Word WORDS)" and "sequence \<noteq> solved"
    using d [OF that] by (simp add: resetPuzzle_def)
  from a b c g show ?thesis
    by blast
qed

theorem checkSequence_completion_witness:
  "checkSequence upperLongS [Word (js ''BUSQUE''), Null, Null] (firstPlaced None) =
     firstPlaced None \<and>
   checkSequence upperLongS solved (allPlaced solved) =
     (allPlaced solved)\<lparr>timers := [(1000, CallOnSolve)]\<rparr> \<and>
   checkSequence upperLongS misplaced (allPlaced misplaced) =
     (allPlaced misplaced)\<lparr>puzzleError := Some SEQUENCE_ERROR, timers := [(2000, ResetPuzzle)]\<rparr> \<and>
   draggableWords (resetPuzzle (checkSequence upperLongS misplaced (allPlaced misplaced))) =
     [js ''CONQUISTAR'', js ''BUSQUE'', js ''CONHECIMENTO'']"
  using checkSequence_completion
      [of "[Word (js ''BUSQUE''), Null, Null]" upperLongS "firstPlaced None"]
    checkSequence_completion [of solved upperLongS "allPlaced solved"]
    checkSequence_completion [of misplaced upperLongS "allPlaced misplaced"]
    misplaced_arrangement
  by (simp add: allPlaced_def resetPuzzle_def)

section \<open>Placing words by drag and by click\<close>

lemmas puzzle_simps = handleDrop_def handleSlotClick_def handleWordClick_def handleDragStart_def
  checkSequence_def cellAt_def setCell_def mountPuzzle_def WORDS_def CORRECT_SEQUENCE_def
  resetPuzzle_def Let_def js_def

lemma cellAt_Word: "cellAt xs i = Word v \<Longrightarrow> i < length xs \<and> xs ! i = Word v"
  by (auto simp: cellAt_def split: if_splits)

text \<open>
  C6, as the claim states it, fails in a state where the word to place is already the
  selected word. After a click on BUSQUE, with BUSQUE in the pool and slot 0 empty,
  the drop of BUSQUE on slot 0 places it (with or without the drag start before it);
  the click sequence does not: the click on BUSQUE deselects it, and the click on the
  empty slot 0 then changes nothing.
\<close>

theorem placement_modalities_counterexample:
  "handleWordClick (js ''BUSQUE'') (mountPuzzle WORDS) = selectedAt (Some (js ''BUSQUE'')) \<and>
   js ''BUSQUE'' \<in> set (draggableWords (selectedAt (Some (js ''BUSQUE'')))) \<and>
   cellAt (droppedWords (selectedAt (Some (js ''BUSQUE'')))) 0 = Null \<and>
   droppedWords (handleDrop upperLongS (js ''BUSQUE'') 0 (selectedAt (Some (js ''BUSQUE'')))) =
     [Word (js ''BUSQUE''), Null, Null] \<and>
   droppedWords
     (handleDrop upperLongS (js ''BUSQUE'') 0
       (handleDragStart (js ''BUSQUE'') (selectedAt (Some (js ''BUSQUE''))))) =
     [Word (js ''BUSQUE''), Null, Null] \<and>
   droppedWords
     (handleSlotClick upperLongS 0
       (handleWordClick (js ''BUSQUE'') (selectedAt (Some (js ''BUSQUE''))))) =
     [Null, Null, Null] \<and>
   draggableWords (handleDrop upperLongS (js ''BUSQUE'') 0 (selectedAt (Some (js ''BUSQUE'')))) =
     [js ''CONHECIMENTO'', js ''CONQUISTAR''] \<and>
   draggableWords
     (handleSlotClick upperLongS 0
       (handleWordClick (js ''BUSQUE'') (selectedAt (Some (js ''BUSQUE''))))) =
     [js ''CONHECIMENTO'', js ''CONQUISTAR'', js ''BUSQUE'']"
  by (simp add: selectedAt_def puzzle_simps)

text \<open>
  C6, amended. For every puzzle state, every word of the pool (a non-empty string)
  that is not the currently selected word, and every empty slot: the drop of the word
  on the slot and the click on the word followed by the click on the slot give the
  same pool, the same slots, the same error and the same pending timers. The click
  sequence leaves no word selected, and so does a drag from its start: the drag start
  followed by the drop gives the very state the two clicks give. When the word is
  the currently selected word and the slot is empty, the click on the word deselects
  it and the click on the slot places nothing: pool and slots stay as they were.
\<close>

theorem placement_modalities:
  "(word \<in> set (draggableWords p) \<and> word \<noteq> [] \<and> cellAt (droppedWords p) slotIndex = Null \<and>
    selectedWord p \<noteq> Some word \<longrightarrow>
     draggableWords (handleDrop U word slotIndex p) =
       draggableWords (handleSlotClick U slotIndex (handleWordClick word p)) \<and>
     droppedWords (handleDrop U word slotIndex p) =
       droppedWords (handleSlotClick U slotIndex (handleWordClick word p)) \<and>
     puzzleError (handleDrop U word slotIndex p) =
       puzzleError (handleSlotClick U slotIndex (handleWordClick word p)) \<and>
     timers (handleDrop U word slotIndex p) =
       timers (handleSlotClick U slotIndex (handleWordClick word p)) \<and>
     selectedWord (handleSlotClick U slotIndex (handleWordClick word p)) = None \<and>
     handleDrop U word slotIndex (handleDragStart word p) =
       handleSlotClick U slotIndex (handleWordClick word p)) \<and>
   (selectedWord p = Some word \<and> cellAt (droppedWords p) slotIndex = Null \<longrightarrow>
     handleSlotClick U slotIndex (handleWordClick word p) = p\<lparr>selectedWord := None\<rparr>)"
  by (auto simp: handleDrop_def handleSlotClick_def handleWordClick_def handleDragStart_def
      Let_def checkSequence_def)

theorem placement_modalities_witness:
  "draggableWords (handleDrop upperLongS (js ''BUSQUE'') 0 (selectedAt (Some (js ''CONQUISTAR'')))) =
     draggableWords
       (handleSlotClick upperLongS 0
         (handleWordClick (js ''BUSQUE'') (selectedAt (Some (js ''CONQUISTAR''))))) \<and>
   droppedWords (handleDrop upperLongS (js ''BUSQUE'') 0 (selectedAt (Some (js ''CONQUISTAR'')))) =
     droppedWords
       (handleSlotClick upperLongS 0
         (handleWordClick (js ''BUSQUE'') (selectedAt (Some (js ''CONQUISTAR''))))) \<and>
   droppedWords (handleDrop upperLongS (js ''BUSQUE'') 0 (selectedAt (Some (js ''CONQUISTAR'')))) =
     [Word (js ''BUSQUE''), Null, Null] \<and>
   handleSlotClick upperLongS 0 (handleWordClick (js ''BUSQUE'') (selectedAt (Some (js ''BUSQUE'')))) =
     selectedAt None"
  using placement_modalities
      [of "js ''BUSQUE''" "selectedAt (Some (js ''CONQUISTAR''))" 0 upperLongS]
    placement_modalities
      [of "js ''BUSQUE''" "selectedAt (Some (js ''BUSQUE''))" 0 upperLongS]
  by (simp add: selectedAt_def puzzle_simps)

text \<open>
  C8. In click mode, a click on the currently selected word deselects it and leaves
  pool and slots as they are. A click on an occupied slot (one that holds a word, a
  non-empty string) while a word is selected does not place the selected word: it
  empties that slot, appends the slot's word to the pool and clears the selection. A
  drop on an occupied slot changes nothing.
\<close>

theorem click_mode_asymmetry:
  "(selectedWord p = Some w \<longrightarrow> handleWordClick w p = p\<lparr>selectedWord := None\<rparr>) \<and>
   (selectedWord p = Some sel \<and> cellAt (droppedWords p) i = Word v \<and> v \<noteq> [] \<longrightarrow>
      handleSlotClick U i p =
        p\<lparr>droppedWords := (droppedWords p)[i := Null],
          draggableWords := draggableWords p @ [v], selectedWord := None\<rparr>) \<and>
   (cellAt (droppedWords p) i = Word v \<longrightarrow> handleDrop U w i p = p)"
  by (auto simp: handleWordClick_def handleSlotClick_def handleDrop_def Let_def setCell_def
      dest: cellAt_Word)

theorem click_mode_asymmetry_witness:
  "handleWordClick (js ''BUSQUE'') (selectedAt (Some (js ''BUSQUE''))) = selectedAt None \<and>
   handleSlotClick upperLongS 0 (firstPlaced (Some (js ''CONQUISTAR''))) =
     (mountPuzzle WORDS)
       \<lparr>draggableWords := [js ''CONHECIMENTO'', js ''CONQUISTAR'', js ''BUSQUE'']\<rparr> \<and>
   handleDrop upperLongS (js ''CONQUISTAR'') 0 (firstPlaced None) = firstPlaced None"
  using click_mode_asymmetry
      [of "selectedAt (Some (js ''BUSQUE''))" "js ''BUSQUE''" "js ''BUSQUE''" 0 "js ''BUSQUE''"
        upperLongS]
    click_mode_asymmetry
      [of "firstPlaced (Some (js ''CONQUISTAR''))" "js ''CONQUISTAR''" "js ''CONQUISTAR''" 0
        "js ''BUSQUE''" upperLongS]
    click_mode_asymmetry
      [of "firstPlaced None" "js ''CONQUISTAR''" "js ''CONQUISTAR''" 0 "js ''BUSQUE''"
        upperLongS]
  by (simp add: selectedAt_def firstPlaced_def mountPuzzle_def cellAt_def WORDS_def js_def)

section \<open>The invariant of the puzzle\<close>

lemma WORDS_facts: "distinct WORDS" "[] \<notin> set WORDS" "length WORDS = 3"
  "js ''BUSQUE'' \<in> set WORDS" "js ''BUSQUE'' \<noteq> []" "count (mset WORDS) (js ''BUSQUE'') = 1"
  by (simp_all add: WORDS_def js_def)

lemma filter_absent: "w \<notin> set xs \<Longrightarrow> filter (\<lambda>x. x \<noteq> w) xs = xs"
  by (induction xs) auto

lemma stale_selection_state:
  assumes "mset ws = mset WORDS"
  shows "droppedWords (staleSelection U ws) = [Word (js ''BUSQUE''), Word (js ''BUSQUE''), Null]"
    and "draggableWords (staleSelection U ws) = filter (\<lambda>w. w \<noteq> js ''BUSQUE'') ws"
proof -
  from assms have "set ws = set WORDS"
    by (rule mset_eq_setD)
  with WORDS_facts(4) have b: "js ''BUSQUE'' \<in> set ws"
    by simp
  have c: "js ''BUSQUE'' \<noteq> []"
    by (rule WORDS_facts(5))
  show "droppedWords (staleSelection U ws) =
      [Word (js ''BUSQUE''), Word (js ''BUSQUE''), Null]"
    using b c
    by (simp add: staleSelection_def handleWordClick_def handleDrop_def handleSlotClick_def
        mountPuzzle_def cellAt_def setCell_def checkSequence_def Let_def)
  show "draggableWords (staleSelection U ws) = filter (\<lambda>w. w \<noteq> js ''BUSQUE'') ws"
    using b c
    by (simp add: staleSelection_def handleWordClick_def handleDrop_def handleSlotClick_def
        mountPuzzle_def cellAt_def setCell_def checkSequence_def Let_def)
qed

text \<open>
  C4. The claim is that the invariant holds after every sequence of drops, word
  clicks and slot clicks from the initial state. The code breaks it: \<open>handleDrop\<close>
  leaves the selection as it is, and \<open>handleSlotClick\<close> places the selected word without
  looking whether it is still in the pool. From the initial state, a click on BUSQUE,
  a drop of BUSQUE on slot 0 and a click on the empty slot 1 leave BUSQUE in two slots
  and the two other words in the pool: four words in play. The same happens from
  every shuffled initial pool.
\<close>

theorem puzzle_invariant_broken:
  "puzzleInvariant (mountPuzzle WORDS) \<and>
   droppedWords (staleSelection U WORDS) =
     [Word (js ''BUSQUE''), Word (js ''BUSQUE''), Null] \<and>
   draggableWords (staleSelection U WORDS) = [js ''CONHECIMENTO'', js ''CONQUISTAR''] \<and>
   length (draggableWords (staleSelection U WORDS)) +
     length (placedWords (droppedWords (staleSelection U WORDS))) = 4 \<and>
   \<not> puzzleInvariant (staleSelection U WORDS) \<and>
   (mset ws = mset WORDS \<longrightarrow>
      puzzleInvariant (mountPuzzle ws) \<and> \<not> puzzleInvariant (staleSelection U ws))"
proof -
  have fixed: "puzzleInvariant (mountPuzzle WORDS) \<and>
   droppedWords (staleSelection U WORDS) =
     [Word (js ''BUSQUE''), Word (js ''BUSQUE''), Null] \<and>
   draggableWords (staleSelection U WORDS) = [js ''CONHECIMENTO'', js ''CONQUISTAR''] \<and>
   length (draggableWords (staleSelection U WORDS)) +
     length (placedWords (droppedWords (staleSelection U WORDS))) = 4 \<and>
   \<not> puzzleInvariant (staleSelection U WORDS)"
    by (simp add: staleSelection_def puzzle_simps puzzleInvariant_def placedWords_def
        wordsInPlay_def)
  have shuffled: "puzzleInvariant (mountPuzzle ws) \<and> \<not> puzzleInvariant (staleSelection U ws)"
    if ws: "mset ws = mset WORDS"
  proof
    from ws have "length ws = 3"
      using mset_eq_length WORDS_facts(3) by fastforce
    with ws show "puzzleInvariant (mountPuzzle ws)"
      by (simp add: puzzleInvariant_def mountPuzzle_def wordsInPlay_def placedWords_def)
    have "count (wordsInPlay (staleSelection U ws)) (js ''BUSQUE'') = 2"
      by (simp add: wordsInPlay_def stale_selection_state [OF ws] placedWords_def)
    with WORDS_facts(6) have "wordsInPlay (staleSelection U ws) \<noteq> mset WORDS"
      by auto
    then show "\<not> puzzleInvariant (staleSelection U ws)"
      by (simp add: puzzleInvariant_def)
  qed
  from fixed shuffled show ?thesis
    by blast
qed

theorem puzzle_invariant_broken_witness:
  "count (wordsInPlay (staleSelection upperLongS WORDS)) (js ''BUSQUE'') = 2 \<and>
   \<not> puzzleInvariant
       (staleSelection upperLongS [js ''CONQUISTAR'', js ''BUSQUE'', js ''CONHECIMENTO''])"
  using puzzle_invariant_broken [of upperLongS "[js ''CONQUISTAR'', js ''BUSQUE'', js ''CONHECIMENTO'']"]
  by (simp add: wordsInPlay_def placedWords_def WORDS_def js_def)

text \<open>
  What the code does keep: along every sequence of events in which no drop happens
  while a word is selected, the invariant holds, across resets as well. A drag that
  starts on a word of the pool clears the selection before its drop, so the sequences
  the component's own drags and clicks produce are of this kind.
\<close>

lemma placedWords_simps [simp]:
  "placedWords [] = []"
  "placedWords (Word w # cs) = w # placedWords cs"
  "placedWords (Null # cs) = placedWords cs"
  "placedWords (Undefined # cs) = placedWords cs"
  by (simp_all add: placedWords_def)

lemma placedWords_place:
  "i < length xs \<Longrightarrow> xs ! i = Null \<Longrightarrow>
   mset (placedWords (xs[i := Word w])) = add_mset w (mset (placedWords xs))"
proof (induction xs arbitrary: i)
  case Nil
  then show ?case by simp
next
  case (Cons c cs)
  show ?case
  proof (cases i)
    case 0
    with Cons.prems show ?thesis by simp
  next
    case (Suc j)
    with Cons show ?thesis by (cases c) simp_all
  qed
qed

lemma placedWords_vacate:
  "i < length xs \<Longrightarrow> xs ! i = Word v \<Longrightarrow>
   add_mset v (mset (placedWords (xs[i := Null]))) = mset (placedWords xs)"
proof (induction xs arbitrary: i)
  case Nil
  then show ?case by simp
next
  case (Cons c cs)
  show ?case
  proof (cases i)
    case 0
    with Cons.prems show ?thesis by simp
  next
    case (Suc j)
    with Cons show ?thesis by (cases c) simp_all
  qed
qed

lemma placed_member: "i < length xs \<Longrightarrow> xs ! i = Word v \<Longrightarrow> v \<in> set (placedWords xs)"
proof (induction xs arbitrary: i)
  case Nil
  then show ?case by simp
next
  case (Cons c cs)
  show ?case
  proof (cases i)
    case 0
    with Cons.prems show ?thesis by simp
  next
    case (Suc j)
    with Cons show ?thesis by (cases c) simp_all
  qed
qed

lemma filter_remove_distinct:
  "distinct xs \<Longrightarrow> w \<in> set xs \<Longrightarrow> add_mset w (mset (filter (\<lambda>x. x \<noteq> w) xs)) = mset xs"
  by (induction xs) (auto simp: filter_absent simp del: mset_filter)

lemma in_play_distinct:
  assumes "wordsInPlay p = mset WORDS"
  shows "distinct (draggableWords p)"
    and "set (draggableWords p) \<subseteq> set WORDS"
    and "set (placedWords (droppedWords p)) \<subseteq> set WORDS"
proof -
  have d: "distinct (draggableWords p @ placedWords (droppedWords p))"
    using assms WORDS_facts(1) unfolding wordsInPlay_def
    by (metis mset_append mset_eq_imp_distinct_iff)
  then show "distinct (draggableWords p)" by simp
  have "set (draggableWords p @ placedWords (droppedWords p)) = set WORDS"
    using assms unfolding wordsInPlay_def by (metis mset_append mset_eq_setD)
  then show "set (draggableWords p) \<subseteq> set WORDS"
    and "set (placedWords (droppedWords p)) \<subseteq> set WORDS"
    by auto
qed

lemma checkSequence_fields:
  "INITIAL_WORDS (checkSequence U cs p) = INITIAL_WORDS p"
  "draggableWords (checkSequence U cs p) = draggableWords p"
  "droppedWords (checkSequence U cs p) = droppedWords p"
  "selectedWord (checkSequence U cs p) = selectedWord p"
  by (simp_all add: checkSequence_def)

lemma consistent_checkSequence: "consistent (checkSequence U cs p) = consistent p"
  by (simp add: consistent_def wordsInPlay_def checkSequence_fields split: option.split)

lemma consistent_mount: "mset ws = mset WORDS \<Longrightarrow> consistent (mountPuzzle ws)"
  by (simp add: consistent_def mountPuzzle_def wordsInPlay_def)

lemma consistent_wordClick:
  "consistent p \<Longrightarrow> w \<in> set (draggableWords p) \<Longrightarrow> consistent (handleWordClick w p)"
  by (simp add: consistent_def handleWordClick_def wordsInPlay_def)

lemma consistent_dragStart: "consistent p \<Longrightarrow> consistent (handleDragStart w p)"
  by (simp add: consistent_def handleDragStart_def wordsInPlay_def)

lemma consistent_reset:
  assumes "consistent p"
  shows "consistent (resetPuzzle p)"
proof -
  from assms have play: "wordsInPlay p = mset WORDS"
    and init: "mset (INITIAL_WORDS p) = mset WORDS"
    by (simp_all add: consistent_def)
  from init have "set (INITIAL_WORDS p) = set WORDS"
    by (rule mset_eq_setD)
  with in_play_distinct(2) [OF play] have "set (draggableWords p) \<subseteq> set (INITIAL_WORDS p)"
    by simp
  with assms show ?thesis
    by (auto simp: consistent_def resetPuzzle_def wordsInPlay_def split: option.splits)
qed

lemma place_consistent:
  assumes c: "consistent p" and w: "w \<in> set (draggableWords p)"
    and i: "i < length (droppedWords p)" and n: "droppedWords p ! i = Null"
    and s: "sel = None"
  shows "consistent (p\<lparr>droppedWords := (droppedWords p)[i := Word w],
           draggableWords := filter (\<lambda>x. x \<noteq> w) (draggableWords p), selectedWord := sel\<rparr>)"
proof -
  from c have play: "wordsInPlay p = mset WORDS"
    by (simp add: consistent_def)
  from in_play_distinct(1) [OF play] w
  have f: "add_mset w (mset (filter (\<lambda>x. x \<noteq> w) (draggableWords p))) = mset (draggableWords p)"
    by (rule filter_remove_distinct)
  have g: "mset (placedWords ((droppedWords p)[i := Word w])) =
      add_mset w (mset (placedWords (droppedWords p)))"
    using i n by (rule placedWords_place)
  have "mset (filter (\<lambda>x. x \<noteq> w) (draggableWords p)) +
      mset (placedWords ((droppedWords p)[i := Word w])) = mset WORDS"
    using f g play by (simp add: wordsInPlay_def) (metis union_mset_add_mset_left)
  moreover have "Undefined \<notin> set ((droppedWords p)[i := Word w])"
    using c by (auto simp: consistent_def dest: set_update_subset_insert [THEN subsetD])
  ultimately show ?thesis
    using c s by (simp add: consistent_def wordsInPlay_def)
qed


lemma vacate_consistent:
  assumes c: "consistent p" and i: "i < length (droppedWords p)"
    and v: "droppedWords p ! i = Word v"
  shows "consistent (p\<lparr>droppedWords := (droppedWords p)[i := Null],
           draggableWords := draggableWords p @ [v], selectedWord := None\<rparr>)"
proof -
  from c have play: "wordsInPlay p = mset WORDS"
    by (simp add: consistent_def)
  have "mset (placedWords (droppedWords p)) =
      add_mset v (mset (placedWords ((droppedWords p)[i := Null])))"
    using placedWords_vacate [OF i v] by simp
  with play have "mset (draggableWords p @ [v]) +
      mset (placedWords ((droppedWords p)[i := Null])) = mset WORDS"
    by (simp add: wordsInPlay_def)
  moreover have "Undefined \<notin> set ((droppedWords p)[i := Null])"
    using c by (auto simp: consistent_def dest: set_update_subset_insert [THEN subsetD])
  ultimately show ?thesis
    using c by (simp add: consistent_def wordsInPlay_def)
qed

lemma consistent_drop:
  assumes c: "consistent p" and s: "selectedWord p = None"
  shows "consistent (handleDrop U w i p)"
proof (cases "w \<notin> set (draggableWords p) \<or> cellAt (droppedWords p) i \<noteq> Null")
  case True
  with c show ?thesis
    by (simp add: handleDrop_def)
next
  case False
  then have w: "w \<in> set (draggableWords p)" and i: "i < length (droppedWords p)"
    and n: "droppedWords p ! i = Null"
    by (auto simp: cellAt_def split: if_splits)
  have "p\<lparr>droppedWords := (droppedWords p)[i := Word w],
      draggableWords := filter (\<lambda>x. x \<noteq> w) (draggableWords p)\<rparr> =
    p\<lparr>droppedWords := (droppedWords p)[i := Word w],
      draggableWords := filter (\<lambda>x. x \<noteq> w) (draggableWords p), selectedWord := None\<rparr>"
    using s by simp
  with place_consistent [OF c w i n refl] False i show ?thesis
    by (simp add: handleDrop_def Let_def setCell_def consistent_checkSequence)
qed

lemma consistent_cell:
  assumes c: "consistent p" and i: "i < length (droppedWords p)"
  shows "droppedWords p ! i = Null \<or> (\<exists>v. droppedWords p ! i = Word v \<and> v \<noteq> [])"
proof (cases "droppedWords p ! i")
  case Null
  then show ?thesis by simp
next
  case Undefined
  with c i show ?thesis
    by (metis consistent_def nth_mem)
next
  case (Word v)
  from c have "wordsInPlay p = mset WORDS"
    by (simp add: consistent_def)
  from in_play_distinct(3) [OF this] placed_member [OF i Word] WORDS_facts(2)
  have "v \<noteq> []" by auto
  with Word show ?thesis by simp
qed

lemma consistent_slotClick:
  assumes c: "consistent p" and i: "i < length (droppedWords p)"
  shows "consistent (handleSlotClick U i p)"
proof -
  from c have play: "wordsInPlay p = mset WORDS"
    by (simp add: consistent_def)
  from consistent_cell [OF c i] show ?thesis
  proof
    assume n: "droppedWords p ! i = Null"
    show ?thesis
    proof (cases "selectedWord p")
      case None
      with c i n show ?thesis
        by (simp add: handleSlotClick_def Let_def cellAt_def)
    next
      case (Some sel)
      with c have sel: "sel \<in> set (draggableWords p)"
        by (simp add: consistent_def)
      with in_play_distinct(2) [OF play] WORDS_facts(2) have "sel \<noteq> []"
        by auto
      with place_consistent [OF c sel i n refl] Some i n show ?thesis
        by (simp add: handleSlotClick_def Let_def cellAt_def setCell_def
            consistent_checkSequence)
    qed
  next
    assume "\<exists>v. droppedWords p ! i = Word v \<and> v \<noteq> []"
    then obtain v where v: "droppedWords p ! i = Word v" and ne: "v \<noteq> []"
      by blast
    from vacate_consistent [OF c i v] i v ne show ?thesis
      by (simp add: handleSlotClick_def Let_def cellAt_def setCell_def split: option.split)
  qed
qed

lemma reachable_consistent:
  assumes "mset ws = mset WORDS" and "reachable U ws p"
  shows "consistent p"
  using assms(2)
proof (induction rule: reachable.induct)
  case mounted
  from assms(1) show ?case by (rule consistent_mount)
next
  case (wordClick p w)
  then show ?case by (simp add: consistent_wordClick)
next
  case (dragStart p w)
  then show ?case by (simp add: consistent_dragStart)
next
  case (drop p w i)
  then show ?case by (simp add: consistent_drop)
next
  case (slotClick p i)
  then show ?case by (simp add: consistent_slotClick)
next
  case (reset p)
  then show ?case by (simp add: consistent_reset)
qed

lemma consistent_invariant:
  assumes "consistent p"
  shows "puzzleInvariant p"
proof -
  from assms have play: "wordsInPlay p = mset WORDS"
    by (simp add: consistent_def)
  then have "size (wordsInPlay p) = size (mset WORDS)"
    by simp
  then have "length (draggableWords p) + length (placedWords (droppedWords p)) = 3"
    by (simp add: wordsInPlay_def WORDS_facts(3))
  with play show ?thesis
    by (simp add: puzzleInvariant_def)
qed

lemma puzzle_invariant_in_app:
  "mset ws = mset WORDS \<Longrightarrow> reachable U ws p \<Longrightarrow> puzzleInvariant p"
  by (simp add: reachable_consistent consistent_invariant)

lemma reachable_solved:
  "reachable U WORDS
     (handleDrop U (js ''CONHECIMENTO'') 2 (handleDragStart (js ''CONHECIMENTO'')
       (handleSlotClick U 1 (handleWordClick (js ''CONQUISTAR'')
         (handleDrop U (js ''BUSQUE'') 0 (handleDragStart (js ''BUSQUE'')
           (mountPuzzle WORDS)))))))"
  by (intro reachable.intros) (simp_all add: puzzle_simps)

end
